theory Spec2Isabelle
  imports Main
begin

section \<open>The accessibility probe of the Studio page\<close>

text \<open>
  The repository is one script, \<^verbatim>\<open>verification/verify_studio_accessibility_final.py\<close>:
  a function \<^verbatim>\<open>verify_studio_accessibility\<close> that drives a headless browser through a
  fixed sequence of Playwright calls, and a \<^verbatim>\<open>__main__\<close> block that runs it inside
  \<^verbatim>\<open>try ... except Exception\<close>.

  The browser, the page under test, the file system and the keyboard are outside the
  script. They are gathered in a \<open>world\<close>: what each library call does when the script
  makes it. The script is a function of the world; it threads a state that holds the
  trace of everything it did, the document the page currently shows, and the files on disk.
\<close>

subsection \<open>Python exceptions\<close>

text \<open>
  Only the place of an exception class relative to \<^verbatim>\<open>Exception\<close> matters to the script.
  \<^verbatim>\<open>AssertionError\<close> is what a failed \<^verbatim>\<open>expect\<close> raises, \<^verbatim>\<open>PlaywrightError\<close> and
  \<^verbatim>\<open>TimeoutError\<close> are the library's own errors; \<^verbatim>\<open>KeyboardInterrupt\<close>,
  \<^verbatim>\<open>SystemExit\<close> and \<^verbatim>\<open>GeneratorExit\<close> derive from \<^verbatim>\<open>BaseException\<close> directly.
\<close>

datatype exc_class =
    AssertionError
  | PlaywrightError
  | TimeoutError
  | OtherException
  | KeyboardInterrupt
  | SystemExit
  | GeneratorExit

fun derives_from_Exception :: "exc_class \<Rightarrow> bool" where
  "derives_from_Exception AssertionError = True"
| "derives_from_Exception PlaywrightError = True"
| "derives_from_Exception TimeoutError = True"
| "derives_from_Exception OtherException = True"
| "derives_from_Exception KeyboardInterrupt = False"
| "derives_from_Exception SystemExit = False"
| "derives_from_Exception GeneratorExit = False"

text \<open>An exception object: its class and what \<^verbatim>\<open>str(e)\<close> gives.\<close>

datatype exc = Exc (cls: exc_class) (description: string)

subsection \<open>Library calls\<close>

text \<open>
  A locator is built lazily by \<^verbatim>\<open>get_by_label\<close> (with its \<^verbatim>\<open>exact\<close> flag) or
  \<^verbatim>\<open>get_by_text\<close>; building one never fails, it is resolved by the call that uses it.
\<close>

datatype locator =
    GetByLabel string bool
  | GetByText string

text \<open>The calls into Playwright that the script makes, with their arguments.\<close>

datatype action =
    SyncPlaywrightEnter
  | ChromiumLaunch bool
  | NewContext
  | NewPage
  | AddInitScript string
  | Goto string
  | WaitForLoadState string
  | Screenshot string bool
  | ToBeVisible locator
  | Click locator
  | ToHaveAttribute locator string string
  | BrowserClose
  | SyncPlaywrightExit

text \<open>
  What the script did, in order: a call that returned, a call that raised, a line
  printed to standard output.
\<close>

datatype event =
    Returned action
  | Raised action exc
  | Printed string

subsection \<open>The page, the world and the state\<close>

record element =
  visible :: bool
  attributes :: "string \<rightharpoonup> string"

text \<open>A document, as far as the script can see it: the elements a locator resolves to.\<close>

type_synonym document = "locator \<Rightarrow> element list"

text \<open>
  The world fixes: for each call, the exception it raises for reasons of its own, if any
  (a timeout, a crashed browser, a missing executable, Ctrl-C); the text Playwright puts
  in the \<^verbatim>\<open>AssertionError\<close> of an expectation that does not hold; the document of the
  Studio page once the network is idle and the one after the Theory tab is clicked; the
  bytes a screenshot yields (by its \<^verbatim>\<open>full_page\<close> flag); the files present at the start.
\<close>

record world =
  fault :: "action \<Rightarrow> exc option"
  explain :: "action \<Rightarrow> string"
  studio_page :: document
  theory_page :: document
  pixels :: "bool \<Rightarrow> string"
  disk :: "string \<rightharpoonup> string"

record state =
  trace :: "event list"
  page :: document
  files :: "string \<rightharpoonup> string"

definition blank :: document where
  "blank = (\<lambda>l. [])"

definition initial :: "world \<Rightarrow> state" where
  "initial w = \<lparr>trace = [], page = blank, files = disk w\<rparr>"

type_synonym prog = "state \<Rightarrow> (exc + unit) \<times> state"

subsection \<open>Semantics of the calls\<close>

text \<open>
  What stands in the way of a call on a given document, as the class of the exception
  it then raises. The two expectations are strict: a locator that resolves to no element,
  or to one that is not visible (respectively does not carry the attribute with exactly
  the given value), fails the expectation with \<^verbatim>\<open>AssertionError\<close>; a locator that
  resolves to several elements is a strict-mode violation, an error of the library.
  Every other call has no condition on the document in this model: whether it returns
  is the world's business.
\<close>

fun unmet :: "document \<Rightarrow> action \<Rightarrow> exc_class option" where
  "unmet d (ToBeVisible l) =
     (case d l of
        [] \<Rightarrow> Some AssertionError
      | [x] \<Rightarrow> if visible x then None else Some AssertionError
      | _ \<Rightarrow> Some PlaywrightError)"
| "unmet d (ToHaveAttribute l n v) =
     (case d l of
        [] \<Rightarrow> Some AssertionError
      | [x] \<Rightarrow> if attributes x n = Some v then None else Some AssertionError
      | _ \<Rightarrow> Some PlaywrightError)"
| "unmet d _ = None"

definition satisfied :: "document \<Rightarrow> action \<Rightarrow> bool" where
  "satisfied d a \<longleftrightarrow> unmet d a = None"

text \<open>
  What a call that returns has changed: the network-idle wait leaves the Studio page
  loaded, the click on the Theory tab switches the document, the screenshot writes
  (or overwrites) the file at its path.
\<close>

fun page_after :: "world \<Rightarrow> action \<Rightarrow> document \<Rightarrow> document" where
  "page_after w (WaitForLoadState c) d = studio_page w"
| "page_after w (Click l) d = theory_page w"
| "page_after w _ d = d"

fun disk_after :: "world \<Rightarrow> action \<Rightarrow> (string \<rightharpoonup> string) \<Rightarrow> (string \<rightharpoonup> string)" where
  "disk_after w (Screenshot p full) fs = fs(p \<mapsto> pixels w full)"
| "disk_after w _ fs = fs"

definition effect :: "world \<Rightarrow> action \<Rightarrow> state \<Rightarrow> state" where
  "effect w a s = s\<lparr>page := page_after w a (page s), files := disk_after w a (files s)\<rparr>"

definition emit :: "event \<Rightarrow> state \<Rightarrow> state" where
  "emit e s = s\<lparr>trace := trace s @ [e]\<rparr>"

text \<open>
  One library call: it raises the world's fault if there is one; otherwise it raises
  when its condition on the document is unmet; otherwise it returns and takes effect.
  A call that raises changes nothing but the trace.
\<close>

definition call :: "world \<Rightarrow> action \<Rightarrow> prog" where
  "call w a s =
     (case fault w a of
        Some e \<Rightarrow> (Inl e, emit (Raised a e) s)
      | None \<Rightarrow>
          (case unmet (page s) a of
             Some c \<Rightarrow> (Inl (Exc c (explain w a)), emit (Raised a (Exc c (explain w a))) s)
           | None \<Rightarrow> (Inr (), effect w a (emit (Returned a) s))))"

definition py_print :: "string \<Rightarrow> prog" where
  "py_print line s = (Inr (), emit (Printed line) s)"

text \<open>Statements in sequence: the first one that raises ends the block.\<close>

fun block :: "prog list \<Rightarrow> prog" where
  "block [] s = (Inr (), s)"
| "block (p # ps) s =
     (case p s of
        (Inl e, s') \<Rightarrow> (Inl e, s')
      | (Inr u, s') \<Rightarrow> block ps s')"

text \<open>
  \<^verbatim>\<open>with sync_playwright() as p: body\<close>. If entering raises, the body does not run and
  there is nothing to leave. Otherwise the body runs and the block is left on every
  path, with the body's result: Playwright's exit handler stops the driver and returns
  \<^verbatim>\<open>None\<close>, so the exception of the body, if any, goes on.
\<close>

definition with_sync_playwright :: "world \<Rightarrow> prog \<Rightarrow> prog" where
  "with_sync_playwright w body s =
     (case call w SyncPlaywrightEnter s of
        (Inl e, s') \<Rightarrow> (Inl e, s')
      | (Inr u, s') \<Rightarrow>
          (case body s' of (r, s'') \<Rightarrow> (r, emit (Returned SyncPlaywrightExit) s'')))"

subsection \<open>The script\<close>

definition init_script :: string where
  "init_script = ''localStorage.setItem('harmoniq-studio-onboarding', 'true');''"

definition studio_url :: string where
  "studio_url = ''http://localhost:3001/studio''"

definition screenshot_path :: string where
  "screenshot_path = ''/app/verification/studio_a11y.png''"

definition tip_button :: locator where
  "tip_button = GetByLabel ''Get new production tip'' False"

definition c_key :: locator where
  "c_key = GetByLabel ''Note C'' True"

definition tip_line :: string where
  "tip_line = ''Verified: Production Tip button has correct ARIA label''"

definition piano_line :: string where
  "piano_line = ''Verified: Piano Key (C) exists and has correct attributes''"

definition success_line :: string where
  "success_line = ''SUCCESS: Accessibility verification passed.''"

definition failure_line :: "exc \<Rightarrow> string" where
  "failure_line e = ''FAILURE: '' @ description e"

text \<open>Lines 6 to 34 of the script, the body of the \<^verbatim>\<open>with\<close> block.\<close>

definition body :: "world \<Rightarrow> prog" where
  "body w = block
     [call w (ChromiumLaunch True),
      call w NewContext,
      call w NewPage,
      call w (AddInitScript init_script),
      call w (Goto studio_url),
      call w (WaitForLoadState ''networkidle''),
      call w (Screenshot screenshot_path True),
      call w (ToBeVisible tip_button),
      py_print tip_line,
      call w (Click (GetByText ''Theory'')),
      call w (ToBeVisible c_key),
      call w (ToHaveAttribute c_key ''aria-pressed'' ''false''),
      py_print piano_line,
      call w BrowserClose]"

definition verify_studio_accessibility :: "world \<Rightarrow> prog" where
  "verify_studio_accessibility w = with_sync_playwright w (body w)"

text \<open>
  How the process ends: with an exit status of the script's making (0 by falling off
  the end, 1 by \<^verbatim>\<open>exit(1)\<close>), or with an exception that leaves the script uncaught, in
  which case the interpreter, not the script, decides the status.
\<close>

datatype ending = Exited nat | Propagated exc

record run =
  ending :: ending
  final :: state

text \<open>The \<^verbatim>\<open>__main__\<close> block, lines 36 to 42.\<close>

definition main :: "world \<Rightarrow> run" where
  "main w =
     (case verify_studio_accessibility w (initial w) of
        (Inr u, s) \<Rightarrow> \<lparr>ending = Exited 0, final = snd (py_print success_line s)\<rparr>
      | (Inl e, s) \<Rightarrow>
          if derives_from_Exception (cls e)
          then \<lparr>ending = Exited 1, final = snd (py_print (failure_line e) s)\<rparr>
          else \<lparr>ending = Propagated e, final = s\<rparr>)"

subsection \<open>Observations of a run\<close>

fun printed :: "event list \<Rightarrow> string list" where
  "printed [] = []"
| "printed (Printed l # es) = l # printed es"
| "printed (e # es) = printed es"

definition stdout :: "run \<Rightarrow> string list" where
  "stdout r = printed (trace (final r))"

definition events :: "run \<Rightarrow> event list" where
  "events r = trace (final r)"

text \<open>The lines the script prints when it reports a failure start with this prefix.\<close>

definition is_failure_line :: "string \<Rightarrow> bool" where
  "is_failure_line l \<longleftrightarrow> take 8 l = ''FAILURE:''"

text \<open>The call an event belongs to, whether it returned or raised.\<close>

fun attempt :: "event \<Rightarrow> action option" where
  "attempt (Returned a) = Some a"
| "attempt (Raised a e) = Some a"
| "attempt (Printed l) = None"

definition tries :: "action list \<Rightarrow> event \<Rightarrow> bool" where
  "tries as e = (case attempt e of Some a \<Rightarrow> a \<in> set as | None \<Rightarrow> False)"

text \<open>
  \<open>awaits x P es\<close>: in \<open>es\<close>, no event with property \<open>P\<close> happens until the event \<open>x\<close>
  has happened.
\<close>

fun awaits :: "event \<Rightarrow> (event \<Rightarrow> bool) \<Rightarrow> event list \<Rightarrow> bool" where
  "awaits x P [] = True"
| "awaits x P (e # es) = (e = x \<or> (\<not> P e \<and> awaits x P es))"

text \<open>The three expectations of the script (lines 23, 30 and 31).\<close>

definition assertions :: "action list" where
  "assertions =
     [ToBeVisible tip_button, ToBeVisible c_key,
      ToHaveAttribute c_key ''aria-pressed'' ''false'']"

text \<open>The calls of lines 5 to 16, which come before the screenshot.\<close>

definition calls_before_screenshot :: "action list" where
  "calls_before_screenshot =
     [SyncPlaywrightEnter, ChromiumLaunch True, NewContext, NewPage,
      AddInitScript init_script, Goto studio_url, WaitForLoadState ''networkidle'']"

text \<open>The calls up to the check of the tip button (line 23), and up to the checks of the key (line 31).\<close>

definition calls_through_tip_check :: "action list" where
  "calls_through_tip_check =
     calls_before_screenshot @ [Screenshot screenshot_path True, ToBeVisible tip_button]"

definition calls_through_key_checks :: "action list" where
  "calls_through_key_checks =
     calls_through_tip_check @
       [Click (GetByText ''Theory''), ToBeVisible c_key,
        ToHaveAttribute c_key ''aria-pressed'' ''false'']"

text \<open>The files written, in order: the path and the \<^verbatim>\<open>full_page\<close> flag of each screenshot taken.\<close>

fun written :: "event list \<Rightarrow> (string \<times> bool) list" where
  "written [] = []"
| "written (Returned (Screenshot p full) # es) = (p, full) # written es"
| "written (e # es) = written es"

text \<open>
  Browser processes. One is acquired by each launch that returns. The script disposes of
  a browser in one of two ways: \<^verbatim>\<open>browser.close()\<close> returns, or the browser is still open
  when the \<^verbatim>\<open>sync_playwright\<close> block is left, and its end is then the business of the
  teardown that Playwright runs there; the script does nothing more for it.
  \<open>closed_by_script n es\<close> counts the browsers closed by a \<^verbatim>\<open>browser.close()\<close> that
  returned in \<open>es\<close>, starting with \<open>n\<close> browsers open; \<open>open_at_block_exit n es\<close> counts
  those still open at the moment the block is left.
\<close>

fun acquired :: "event list \<Rightarrow> nat" where
  "acquired [] = 0"
| "acquired (Returned (ChromiumLaunch h) # es) = Suc (acquired es)"
| "acquired (e # es) = acquired es"

fun closed_by_script :: "nat \<Rightarrow> event list \<Rightarrow> nat" where
  "closed_by_script n [] = 0"
| "closed_by_script n (Returned (ChromiumLaunch h) # es) = closed_by_script (Suc n) es"
| "closed_by_script n (Returned BrowserClose # es) =
     (if n = 0 then closed_by_script 0 es else Suc (closed_by_script (n - 1) es))"
| "closed_by_script n (Returned SyncPlaywrightExit # es) = closed_by_script 0 es"
| "closed_by_script n (e # es) = closed_by_script n es"

fun open_at_block_exit :: "nat \<Rightarrow> event list \<Rightarrow> nat" where
  "open_at_block_exit n [] = 0"
| "open_at_block_exit n (Returned (ChromiumLaunch h) # es) = open_at_block_exit (Suc n) es"
| "open_at_block_exit n (Returned BrowserClose # es) = open_at_block_exit (n - 1) es"
| "open_at_block_exit n (Returned SyncPlaywrightExit # es) = n + open_at_block_exit 0 es"
| "open_at_block_exit n (e # es) = open_at_block_exit n es"

text \<open>What follows a raise in the trace before the handler: the block is left, unless it was never entered.\<close>

definition leaving :: "action \<Rightarrow> event list" where
  "leaving a = (if a = SyncPlaywrightEnter then [] else [Returned SyncPlaywrightExit])"

subsection \<open>The body as a list of statements\<close>

text \<open>
  The body of the \<^verbatim>\<open>with\<close> block is a list of calls and prints; \<open>script\<close> names them,
  so that what holds of every statement is proved once, by induction on the list.
\<close>

datatype stmt = Do action | Say string

definition script :: "stmt list" where
  "script =
     [Do (ChromiumLaunch True), Do NewContext, Do NewPage, Do (AddInitScript init_script),
      Do (Goto studio_url), Do (WaitForLoadState ''networkidle''),
      Do (Screenshot screenshot_path True), Do (ToBeVisible tip_button), Say tip_line,
      Do (Click (GetByText ''Theory'')), Do (ToBeVisible c_key),
      Do (ToHaveAttribute c_key ''aria-pressed'' ''false''), Say piano_line, Do BrowserClose]"

fun exec :: "world \<Rightarrow> stmt \<Rightarrow> prog" where
  "exec w (Do a) = call w a"
| "exec w (Say l) = py_print l"

fun completion :: "stmt \<Rightarrow> event" where
  "completion (Do a) = Returned a"
| "completion (Say l) = Printed l"

text \<open>What the handler of the \<^verbatim>\<open>__main__\<close> block adds to the trace, and how the process then ends.\<close>

definition caught :: "exc \<Rightarrow> event list" where
  "caught e = (if derives_from_Exception (cls e) then [Printed (failure_line e)] else [])"

definition verdict :: "exc \<Rightarrow> ending" where
  "verdict e = (if derives_from_Exception (cls e) then Exited 1 else Propagated e)"

subsection \<open>The state as a function of the trace\<close>

text \<open>
  The document and the disk are determined by the events so far; and every event of a
  trace is one the world allows on the document of its moment. (Leaving the
  \<^verbatim>\<open>with\<close> block is not a call the world can fault in this model.)
\<close>

fun turn :: "world \<Rightarrow> event \<Rightarrow> document \<Rightarrow> document" where
  "turn w (Returned a) d = page_after w a d"
| "turn w _ d = d"

fun store :: "world \<Rightarrow> event \<Rightarrow> (string \<rightharpoonup> string) \<Rightarrow> (string \<rightharpoonup> string)" where
  "store w (Returned a) fs = disk_after w a fs"
| "store w _ fs = fs"

fun admissible :: "world \<Rightarrow> document \<Rightarrow> event \<Rightarrow> bool" where
  "admissible w d (Returned SyncPlaywrightExit) = True"
| "admissible w d (Returned a) = (fault w a = None \<and> unmet d a = None)"
| "admissible w d (Raised a e) =
     (fault w a = Some e \<or>
      (fault w a = None \<and>
       (case unmet d a of Some c \<Rightarrow> e = Exc c (explain w a) | None \<Rightarrow> False)))"
| "admissible w d (Printed l) = True"

fun consistent :: "world \<Rightarrow> document \<Rightarrow> event list \<Rightarrow> bool" where
  "consistent w d [] = True"
| "consistent w d (e # es) = (admissible w d e \<and> consistent w (turn w e d) es)"

fun replay_page :: "world \<Rightarrow> document \<Rightarrow> event list \<Rightarrow> document" where
  "replay_page w d [] = d"
| "replay_page w d (e # es) = replay_page w (turn w e d) es"

fun replay_disk :: "world \<Rightarrow> (string \<rightharpoonup> string) \<Rightarrow> event list \<Rightarrow> (string \<rightharpoonup> string)" where
  "replay_disk w fs [] = fs"
| "replay_disk w fs (e # es) = replay_disk w (store w e fs) es"

definition coherent :: "world \<Rightarrow> state \<Rightarrow> bool" where
  "coherent w s \<longleftrightarrow>
     consistent w blank (trace s) \<and> page s = replay_page w blank (trace s) \<and>
     files s = replay_disk w (disk w) (trace s)"

subsection \<open>Some worlds\<close>

text \<open>
  A Studio page as the script expects it: one visible tip button, one Theory tab, and,
  once the tab is clicked, one visible key for the note C that is not pressed.
\<close>

definition tip_element :: element where
  "tip_element = \<lparr>visible = True, attributes = [''aria-label'' \<mapsto> ''Get new production tip'']\<rparr>"

definition tab_element :: element where
  "tab_element = \<lparr>visible = True, attributes = [''role'' \<mapsto> ''tab'']\<rparr>"

definition key_element :: element where
  "key_element =
     \<lparr>visible = True, attributes = [''aria-label'' \<mapsto> ''Note C'', ''aria-pressed'' \<mapsto> ''false'']\<rparr>"

definition studio_document :: document where
  "studio_document =
     (\<lambda>l. if l = tip_button then [tip_element]
          else if l = GetByText ''Theory'' then [tab_element] else [])"

definition theory_document :: document where
  "theory_document =
     (\<lambda>l. if l = c_key then [key_element]
          else if l = GetByText ''Theory'' then [tab_element] else [])"

text \<open>The text of a failed expectation, as Playwright words it.\<close>

fun expectation_message :: "action \<Rightarrow> string" where
  "expectation_message (ToHaveAttribute l n v) = ''Locator expected to have attribute''"
| "expectation_message a = ''Locator expected to be visible''"

text \<open>The world in which the application works and nothing goes wrong.\<close>

definition working_world :: world where
  "working_world =
     \<lparr>fault = (\<lambda>a. None),
      explain = expectation_message,
      studio_page = studio_document,
      theory_page = theory_document,
      pixels = (\<lambda>full. if full then ''full-page PNG'' else ''viewport PNG''),
      disk = Map.empty\<rparr>"

text \<open>The same world, but one call raises.\<close>

definition failing_at :: "action \<Rightarrow> exc \<Rightarrow> world" where
  "failing_at a e = working_world\<lparr>fault := (\<lambda>b. if b = a then Some e else None)\<rparr>"

text \<open>Ctrl-C while the page is being fetched, and while the script waits for the network to go idle.\<close>

definition interrupted_world :: world where
  "interrupted_world = failing_at (Goto studio_url) (Exc KeyboardInterrupt [])"

definition stalled_world :: world where
  "stalled_world = failing_at (WaitForLoadState ''networkidle'') (Exc KeyboardInterrupt [])"

text \<open>No browser executable is installed: the launch raises.\<close>

definition no_browser_world :: world where
  "no_browser_world =
     failing_at (ChromiumLaunch True) (Exc PlaywrightError ''Executable does not exist'')"

text \<open>Nothing listens on port 3001: the navigation raises.\<close>

definition offline_world :: world where
  "offline_world =
     failing_at (Goto studio_url) (Exc PlaywrightError ''net::ERR_CONNECTION_REFUSED'')"

text \<open>The navigation times out.\<close>

definition slow_world :: world where
  "slow_world = failing_at (Goto studio_url) (Exc TimeoutError ''Timeout 30000ms exceeded'')"

text \<open>The tip button has gone from the Studio page; the key of the note C is shown pressed.\<close>

definition no_tip_world :: world where
  "no_tip_world =
     working_world\<lparr>studio_page := (\<lambda>l. if l = GetByText ''Theory'' then [tab_element] else [])\<rparr>"

definition pressed_key_world :: world where
  "pressed_key_world =
     working_world\<lparr>theory_page :=
       (\<lambda>l. if l = c_key
            then [key_element\<lparr>attributes := [''aria-label'' \<mapsto> ''Note C'', ''aria-pressed'' \<mapsto> ''true'']\<rparr>]
            else [])\<rparr>"

text \<open>Ctrl-C during the check of the tip button that is not there, and during the check of the
  attribute of the key that is shown pressed.\<close>

definition interrupted_tip_world :: world where
  "interrupted_tip_world =
     no_tip_world\<lparr>fault :=
       (\<lambda>b. if b = ToBeVisible tip_button then Some (Exc KeyboardInterrupt []) else None)\<rparr>"

definition interrupted_key_world :: world where
  "interrupted_key_world =
     pressed_key_world\<lparr>fault :=
       (\<lambda>b. if b = ToHaveAttribute c_key ''aria-pressed'' ''false''
            then Some (Exc KeyboardInterrupt []) else None)\<rparr>"

section \<open>Properties\<close>

subsection \<open>The state follows the trace\<close>

lemma body_script: "body w = block (map (exec w) script)"
  by (simp add: body_def script_def)

lemma replay_page_append:
  "replay_page w d (xs @ ys) = replay_page w (replay_page w d xs) ys"
  by (induction xs arbitrary: d) simp_all

lemma replay_disk_append:
  "replay_disk w fs (xs @ ys) = replay_disk w (replay_disk w fs xs) ys"
  by (induction xs arbitrary: fs) simp_all

lemma consistent_append:
  "consistent w d (xs @ ys) \<longleftrightarrow> consistent w d xs \<and> consistent w (replay_page w d xs) ys"
  by (induction xs arbitrary: d) auto

lemmas replay_simps = consistent_append replay_page_append replay_disk_append

lemma coherent_initial: "coherent w (initial w)"
  by (simp add: coherent_def initial_def)

lemma coherent_print: "coherent w s \<Longrightarrow> coherent w (snd (py_print l s))"
  by (simp add: coherent_def py_print_def emit_def replay_simps)

lemma coherent_exit: "coherent w s \<Longrightarrow> coherent w (emit (Returned SyncPlaywrightExit) s)"
  by (simp add: coherent_def emit_def replay_simps)

lemma coherent_call:
  assumes "a \<noteq> SyncPlaywrightExit" and "coherent w s"
  shows "coherent w (snd (call w a s))"
  using assms
  by (cases a)
    (auto simp: coherent_def call_def emit_def effect_def replay_simps split: option.splits)

lemma coherent_block:
  assumes "coherent w s" and "\<forall>a. Do a \<in> set ss \<longrightarrow> a \<noteq> SyncPlaywrightExit"
  shows "coherent w (snd (block (map (exec w) ss) s))"
  using assms
proof (induction ss arbitrary: s)
  case Nil
  then show ?case by simp
next
  case (Cons x xs)
  have step: "coherent w (snd (exec w x s))"
    using Cons.prems by (cases x) (auto intro: coherent_call coherent_print)
  show ?case
  proof (cases "exec w x s")
    case (Pair q t)
    with step have "coherent w t" by simp
    with Cons.IH[of t] Cons.prems(2) Pair show ?thesis
      by (cases q) auto
  qed
qed

subsection \<open>The shape of a trace\<close>

lemma exec_trace:
  assumes "exec w x s = (q, t)"
  shows "case q of
      Inr u \<Rightarrow> trace t = trace s @ [completion x]
    | Inl e \<Rightarrow> \<exists>a. x = Do a \<and> trace t = trace s @ [Raised a e]"
  using assms
  by (cases x) (auto simp: call_def py_print_def emit_def effect_def split: option.splits)

lemma block_shape:
  assumes "block (map (exec w) ss) s = (r, s')"
  shows "case r of
      Inr u \<Rightarrow> trace s' = trace s @ map completion ss
    | Inl e \<Rightarrow> \<exists>pre a post. ss = pre @ Do a # post \<and>
                 trace s' = trace s @ map completion pre @ [Raised a e]"
  using assms
proof (induction ss arbitrary: s)
  case Nil
  then show ?case by auto
next
  case (Cons x xs)
  obtain q t where step: "exec w x s = (q, t)"
    by (cases "exec w x s")
  show ?case
  proof (cases q)
    case (Inl e)
    with step Cons.prems have r: "r = Inl e" "s' = t" by auto
    from exec_trace[OF step] Inl obtain a where
      "x = Do a" "trace t = trace s @ [Raised a e]" by auto
    with r have "x # xs = [] @ Do a # xs"
      "trace s' = trace s @ map completion [] @ [Raised a e]" by simp_all
    then have "\<exists>pre a post. x # xs = pre @ Do a # post \<and>
        trace s' = trace s @ map completion pre @ [Raised a e]" by blast
    with r show ?thesis by simp
  next
    case (Inr u)
    with step Cons.prems have rest: "block (map (exec w) xs) t = (r, s')" by simp
    from exec_trace[OF step] Inr have t: "trace t = trace s @ [completion x]" by simp
    show ?thesis
    proof (cases r)
      case (Inl e)
      with Cons.IH[OF rest] obtain pre a post where
        "xs = pre @ Do a # post" "trace s' = trace t @ map completion pre @ [Raised a e]"
        by auto
      with t have "x # xs = (x # pre) @ Do a # post"
        "trace s' = trace s @ map completion (x # pre) @ [Raised a e]" by simp_all
      then have "\<exists>pre a post. x # xs = pre @ Do a # post \<and>
          trace s' = trace s @ map completion pre @ [Raised a e]" by blast
      with Inl show ?thesis by simp
    next
      case (Inr v)
      with Cons.IH[OF rest] t show ?thesis by simp
    qed
  qed
qed

lemma script_no_exit: "\<forall>a. Do a \<in> set script \<longrightarrow> a \<noteq> SyncPlaywrightExit"
  by (simp add: script_def)

lemma main_coherent: "coherent w (final (main w))"
proof -
  have i0: "coherent w (initial w)" by (rule coherent_initial)
  have i1: "coherent w (snd (call w SyncPlaywrightEnter (initial w)))"
    by (rule coherent_call[OF _ i0]) simp
  have i2: "coherent w (snd (verify_studio_accessibility w (initial w)))"
  proof (cases "call w SyncPlaywrightEnter (initial w)")
    case (Pair q t)
    with i1 have t: "coherent w t" by simp
    show ?thesis
    proof (cases q)
      case (Inl e)
      with Pair t show ?thesis
        by (simp add: verify_studio_accessibility_def with_sync_playwright_def)
    next
      case (Inr u)
      have "coherent w (snd (body w t))"
        unfolding body_script by (rule coherent_block[OF t script_no_exit])
      then have "coherent w (emit (Returned SyncPlaywrightExit) (snd (body w t)))"
        by (rule coherent_exit)
      with Pair Inr show ?thesis
        by (cases "body w t") (simp add: verify_studio_accessibility_def with_sync_playwright_def)
    qed
  qed
  show ?thesis
  proof (cases "verify_studio_accessibility w (initial w)")
    case (Pair r s)
    with i2 have s: "coherent w s" by simp
    then have "coherent w (snd (py_print l s))" for l by (rule coherent_print)
    with Pair s show ?thesis
      by (cases r) (simp_all add: main_def)
  qed
qed

lemma main_consistent: "consistent w blank (events (main w))"
  using main_coherent[of w] by (simp add: coherent_def events_def)

lemma main_files: "files (final (main w)) = replay_disk w (disk w) (events (main w))"
  using main_coherent[of w] by (simp add: coherent_def events_def)

lemma main_shape:
  obtains
    (not_started) e where "events (main w) = Raised SyncPlaywrightEnter e # caught e"
      and "ending (main w) = verdict e"
  | (passed) "events (main w) =
        Returned SyncPlaywrightEnter # map completion script @
          [Returned SyncPlaywrightExit, Printed success_line]"
      and "ending (main w) = Exited 0"
  | (failed) pre a post e where "script = pre @ Do a # post"
      and "events (main w) =
        Returned SyncPlaywrightEnter # map completion pre @
          [Raised a e, Returned SyncPlaywrightExit] @ caught e"
      and "ending (main w) = verdict e"
proof (cases "call w SyncPlaywrightEnter (initial w)")
  case (Pair q t)
  show ?thesis
  proof (cases q)
    case (Inl e)
    with Pair have "trace t = [Raised SyncPlaywrightEnter e]"
      by (auto simp: call_def emit_def initial_def split: option.splits)
    with Pair Inl have "events (main w) = Raised SyncPlaywrightEnter e # caught e"
      "ending (main w) = verdict e"
      by (simp_all add: main_def verify_studio_accessibility_def with_sync_playwright_def
          events_def caught_def verdict_def py_print_def emit_def)
    then show ?thesis by (rule not_started)
  next
    case (Inr u)
    with Pair have t: "trace t = [Returned SyncPlaywrightEnter]"
      by (auto simp: call_def emit_def initial_def effect_def split: option.splits)
    obtain r s' where b: "block (map (exec w) script) t = (r, s')"
      by (cases "block (map (exec w) script) t")
    have v: "verify_studio_accessibility w (initial w) =
        (r, emit (Returned SyncPlaywrightExit) s')"
      using Pair Inr b
      by (simp add: verify_studio_accessibility_def with_sync_playwright_def body_script)
    show ?thesis
    proof (cases r)
      case (Inr x)
      with block_shape[OF b] t have
        "trace s' = Returned SyncPlaywrightEnter # map completion script" by simp
      with v Inr have "events (main w) =
        Returned SyncPlaywrightEnter # map completion script @
          [Returned SyncPlaywrightExit, Printed success_line]" "ending (main w) = Exited 0"
        by (simp_all add: main_def events_def py_print_def emit_def)
      then show ?thesis by (rule passed)
    next
      case (Inl e)
      with block_shape[OF b] t obtain pre a post where
        sp: "script = pre @ Do a # post"
        and tr: "trace s' = Returned SyncPlaywrightEnter # map completion pre @ [Raised a e]"
        by auto
      from v Inl tr have "events (main w) =
        Returned SyncPlaywrightEnter # map completion pre @
          [Raised a e, Returned SyncPlaywrightExit] @ caught e" "ending (main w) = verdict e"
        by (simp_all add: main_def events_def py_print_def emit_def caught_def verdict_def)
      with sp show ?thesis by (rule failed)
    qed
  qed
qed

lemma script_split:
  assumes "script = pre @ Do a # post"
  shows "(pre, a) \<in> set
    [([], ChromiumLaunch True),
     (take 1 script, NewContext),
     (take 2 script, NewPage),
     (take 3 script, AddInitScript init_script),
     (take 4 script, Goto studio_url),
     (take 5 script, WaitForLoadState ''networkidle''),
     (take 6 script, Screenshot screenshot_path True),
     (take 7 script, ToBeVisible tip_button),
     (take 9 script, Click (GetByText ''Theory'')),
     (take 10 script, ToBeVisible c_key),
     (take 11 script, ToHaveAttribute c_key ''aria-pressed'' ''false''),
     (take 13 script, BrowserClose)]"
  using assms by (auto simp: script_def Cons_eq_append_conv)

lemma completion_not_Raised: "Raised a e \<notin> completion ` S"
proof
  assume "Raised a e \<in> completion ` S"
  then obtain x where "completion x = Raised a e" by auto
  then show False by (cases x) simp_all
qed

lemma Raised_not_caught: "Raised a e \<notin> set (caught x)"
  by (simp add: caught_def)

lemma printed_append: "printed (xs @ ys) = printed xs @ printed ys"
  by (induction xs rule: printed.induct) simp_all

lemma printed_prefix:
  assumes "script = pre @ Do a # post"
  shows "printed (map completion pre) \<in> set [[], [tip_line], [tip_line, piano_line]]"
  using script_split[OF assms] by (auto simp: script_def)

subsection \<open>The runs of the worlds above\<close>

lemmas run_defs = main_def verify_studio_accessibility_def with_sync_playwright_def body_def
  call_def py_print_def emit_def effect_def initial_def events_def stdout_def

lemmas world_defs = working_world_def failing_at_def studio_document_def theory_document_def
  tip_element_def tab_element_def key_element_def tip_button_def c_key_def

lemma working_world_run:
  "events (main working_world) =
     Returned SyncPlaywrightEnter # map completion script @
       [Returned SyncPlaywrightExit, Printed success_line]"
  "ending (main working_world) = Exited 0"
  "files (final (main working_world)) = [screenshot_path \<mapsto> ''full-page PNG'']"
  by (simp_all add: run_defs world_defs script_def)

lemma interrupted_world_run:
  "events (main interrupted_world) =
     Returned SyncPlaywrightEnter # map completion (take 4 script) @
       [Raised (Goto studio_url) (Exc KeyboardInterrupt []), Returned SyncPlaywrightExit]"
  "ending (main interrupted_world) = Propagated (Exc KeyboardInterrupt [])"
  by (simp_all add: run_defs world_defs script_def interrupted_world_def)

lemma stalled_world_run:
  "events (main stalled_world) =
     Returned SyncPlaywrightEnter # map completion (take 5 script) @
       [Raised (WaitForLoadState ''networkidle'') (Exc KeyboardInterrupt []),
        Returned SyncPlaywrightExit]"
  "ending (main stalled_world) = Propagated (Exc KeyboardInterrupt [])"
  "files (final (main stalled_world)) = Map.empty"
  by (simp_all add: run_defs world_defs script_def stalled_world_def)

lemma no_browser_world_run:
  "events (main no_browser_world) =
     [Returned SyncPlaywrightEnter,
      Raised (ChromiumLaunch True) (Exc PlaywrightError ''Executable does not exist''),
      Returned SyncPlaywrightExit,
      Printed (''FAILURE: Executable does not exist'')]"
  "ending (main no_browser_world) = Exited 1"
  by (simp_all add: run_defs world_defs no_browser_world_def failure_line_def)

lemma offline_world_run:
  "events (main offline_world) =
     Returned SyncPlaywrightEnter # map completion (take 4 script) @
       [Raised (Goto studio_url) (Exc PlaywrightError ''net::ERR_CONNECTION_REFUSED''),
        Returned SyncPlaywrightExit, Printed ''FAILURE: net::ERR_CONNECTION_REFUSED'']"
  "ending (main offline_world) = Exited 1"
  "files (final (main offline_world)) = Map.empty"
  by (simp_all add: run_defs world_defs script_def offline_world_def failure_line_def)

lemma slow_world_run:
  "events (main slow_world) =
     Returned SyncPlaywrightEnter # map completion (take 4 script) @
       [Raised (Goto studio_url) (Exc TimeoutError ''Timeout 30000ms exceeded''),
        Returned SyncPlaywrightExit, Printed ''FAILURE: Timeout 30000ms exceeded'']"
  "ending (main slow_world) = Exited 1"
  by (simp_all add: run_defs world_defs script_def slow_world_def failure_line_def)

lemma no_tip_world_run:
  "events (main no_tip_world) =
     Returned SyncPlaywrightEnter # map completion (take 7 script) @
       [Raised (ToBeVisible tip_button) (Exc AssertionError ''Locator expected to be visible''),
        Returned SyncPlaywrightExit, Printed ''FAILURE: Locator expected to be visible'']"
  "ending (main no_tip_world) = Exited 1"
  "files (final (main no_tip_world)) = [screenshot_path \<mapsto> ''full-page PNG'']"
  by (simp_all add: run_defs world_defs script_def no_tip_world_def failure_line_def)

lemma pressed_key_world_run:
  "events (main pressed_key_world) =
     Returned SyncPlaywrightEnter # map completion (take 11 script) @
       [Raised (ToHaveAttribute c_key ''aria-pressed'' ''false'')
          (Exc AssertionError ''Locator expected to have attribute''),
        Returned SyncPlaywrightExit, Printed ''FAILURE: Locator expected to have attribute'']"
  "ending (main pressed_key_world) = Exited 1"
  by (simp_all add: run_defs world_defs script_def pressed_key_world_def failure_line_def)

lemma interrupted_tip_world_run:
  "events (main interrupted_tip_world) =
     Returned SyncPlaywrightEnter # map completion (take 7 script) @
       [Raised (ToBeVisible tip_button) (Exc KeyboardInterrupt []),
        Returned SyncPlaywrightExit]"
  "ending (main interrupted_tip_world) = Propagated (Exc KeyboardInterrupt [])"
  by (simp_all add: run_defs world_defs script_def no_tip_world_def interrupted_tip_world_def)

lemma interrupted_key_world_run:
  "events (main interrupted_key_world) =
     Returned SyncPlaywrightEnter # map completion (take 11 script) @
       [Raised (ToHaveAttribute c_key ''aria-pressed'' ''false'') (Exc KeyboardInterrupt []),
        Returned SyncPlaywrightExit]"
  "ending (main interrupted_key_world) = Propagated (Exc KeyboardInterrupt [])"
  by (simp_all add: run_defs world_defs script_def pressed_key_world_def
      interrupted_key_world_def)

lemma interrupted_worlds_pages:
  "\<not> satisfied (studio_page interrupted_tip_world) (ToBeVisible tip_button)"
  "\<not> satisfied (theory_page interrupted_key_world)
       (ToHaveAttribute c_key ''aria-pressed'' ''false'')"
  by (simp_all add: satisfied_def interrupted_tip_world_def interrupted_key_world_def
      no_tip_world_def pressed_key_world_def working_world_def key_element_def tip_button_def)

subsection \<open>What a raise and a return tell about the world\<close>

text \<open>A call that raised is the only one of its run that did, and the run stopped there.\<close>

lemma raised_cases:
  assumes "Raised a e \<in> set (events (main w))"
  obtains
    (not_started) "a = SyncPlaywrightEnter"
      and "events (main w) = Raised a e # caught e"
      and "ending (main w) = verdict e"
  | (failed) pre post where "script = pre @ Do a # post"
      and "events (main w) =
        Returned SyncPlaywrightEnter # map completion pre @
          [Raised a e, Returned SyncPlaywrightExit] @ caught e"
      and "ending (main w) = verdict e"
proof (cases w rule: main_shape)
  case (not_started x)
  with assms have "a = SyncPlaywrightEnter" "x = e" by (simp_all add: Raised_not_caught)
  with not_started that(1) show ?thesis by simp
next
  case passed
  with assms show ?thesis by (simp add: completion_not_Raised)
next
  case (failed pre b post x)
  with assms have "b = a" "x = e" by (simp_all add: Raised_not_caught completion_not_Raised)
  with failed that(2) show ?thesis by simp
qed

text \<open>Of the lines the script prints, only the handler's has the failure prefix.\<close>

lemma failure_line_is_failure_line: "is_failure_line (failure_line e)"
  by (simp add: is_failure_line_def failure_line_def)

lemma confirmations_not_failure_lines:
  "\<not> is_failure_line tip_line" "\<not> is_failure_line piano_line" "\<not> is_failure_line success_line"
  by (simp_all add: is_failure_line_def tip_line_def piano_line_def success_line_def)

lemma prefix_lines_not_failure:
  assumes "script = pre @ Do a # post"
  shows "filter is_failure_line (printed (map completion pre)) = []"
  using printed_prefix[OF assms] by (auto simp: confirmations_not_failure_lines)

lemma piano_line_not_failure_line: "piano_line \<noteq> failure_line e"
  using confirmations_not_failure_lines(2) failure_line_is_failure_line[of e] by auto

text \<open>
  An exception in the trace is the world's fault for that call, or comes from an unmet
  condition and then derives from \<^verbatim>\<open>Exception\<close>.
\<close>

lemma unmet_derives: "unmet d a = Some c \<Longrightarrow> derives_from_Exception c"
  by (cases a) (auto split: list.splits if_splits)

lemma consistent_raised:
  assumes "consistent w d es" and "Raised a e \<in> set es"
  shows "fault w a = Some e \<or> derives_from_Exception (cls e)"
  using assms
proof (induction es arbitrary: d)
  case Nil
  then show ?case by simp
next
  case (Cons x xs)
  show ?case
  proof (cases "x = Raised a e")
    case True
    with Cons.prems(1) show ?thesis
      by (auto split: option.splits dest: unmet_derives)
  next
    case False
    with Cons.prems have "consistent w (turn w x d) xs" "Raised a e \<in> set xs" by auto
    then show ?thesis by (rule Cons.IH)
  qed
qed

lemma raised_origin:
  assumes "Raised a e \<in> set (events (main w))"
  shows "fault w a = Some e \<or> derives_from_Exception (cls e)"
  using main_consistent assms by (rule consistent_raised)

lemma admissible_returned:
  assumes "admissible w d (Returned a)" and "a \<noteq> SyncPlaywrightExit"
  shows "satisfied d a"
  using assms by (cases a) (simp_all add: satisfied_def)

lemma consistent_returned:
  assumes "consistent w d (pre @ Returned a # post)" and "a \<noteq> SyncPlaywrightExit"
  shows "satisfied (replay_page w d pre) a"
  using assms by (auto simp: consistent_append intro: admissible_returned)

lemma locators_differ: "tip_button \<noteq> c_key" "c_key \<noteq> tip_button"
  by (simp_all add: tip_button_def c_key_def)

lemma Returned_not_caught: "Returned a \<notin> set (caught e)"
  by (simp add: caught_def)

text \<open>
  An expectation that returned in a run stands in the trace right after the statements
  that precede it in the script.
\<close>

lemma first_occurrence_unique:
  assumes "xs @ x # ys = xs' @ x # ys'" and "x \<notin> set xs" and "x \<notin> set xs'"
  shows "xs = xs'"
  using assms
proof (induction xs arbitrary: xs')
  case Nil
  then show ?case by (cases xs') auto
next
  case (Cons z zs)
  then show ?case by (cases xs') auto
qed

lemma returned_position:
  assumes "Returned a \<in> set (events (main w))"
    and "script = before @ Do a # rest"
    and "Do a \<notin> set before"
  shows "\<exists>post. events (main w) =
    (Returned SyncPlaywrightEnter # map completion before) @ Returned a # post"
proof -
  have mem: "Do a \<in> set script"
    by (subst assms(2)) simp
  then have a: "a \<noteq> SyncPlaywrightEnter" "a \<noteq> SyncPlaywrightExit"
    by (auto simp: script_def)
  have whole: "map completion script = map completion before @ Returned a # map completion rest"
    by (subst assms(2)) simp
  show ?thesis
  proof (cases w rule: main_shape)
    case (not_started e)
    with assms(1) show ?thesis by (simp add: Returned_not_caught)
  next
    case passed
    with whole have "events (main w) =
        (Returned SyncPlaywrightEnter # map completion before) @ Returned a #
          (map completion rest @ [Returned SyncPlaywrightExit, Printed success_line])"
      by simp
    then show ?thesis by blast
  next
    case (failed pre b post e)
    from failed(2) assms(1) a have "Returned a \<in> set (map completion pre)"
      by (simp add: Returned_not_caught)
    then obtain y where y: "y \<in> set pre" "completion y = Returned a" by auto
    from y(2) have "y = Do a" by (cases y) simp_all
    with y(1) have "Do a \<in> set pre" by simp
    then obtain p1 p2 where pre: "pre = p1 @ Do a # p2" "Do a \<notin> set p1"
      by (blast dest: split_list_first)
    have "before @ Do a # rest = script"
      by (rule assms(2)[symmetric])
    also have "script = pre @ Do b # post"
      by (rule failed(1))
    also have "pre @ Do b # post = p1 @ Do a # (p2 @ Do b # post)"
      by (simp add: pre(1))
    finally have "before @ Do a # rest = p1 @ Do a # (p2 @ Do b # post)" .
    from first_occurrence_unique[OF this assms(3) pre(2)] have "before = p1" .
    with pre failed(2) have "events (main w) =
        (Returned SyncPlaywrightEnter # map completion before) @ Returned a #
          (map completion p2 @ [Raised b e, Returned SyncPlaywrightExit] @ caught e)"
      by simp
    then show ?thesis by blast
  qed
qed

lemma returned_satisfied:
  assumes "Returned a \<in> set (events (main w))"
    and "script = before @ Do a # rest"
    and "Do a \<notin> set before"
  shows "satisfied
    (replay_page w blank (Returned SyncPlaywrightEnter # map completion before)) a"
proof -
  have "Do a \<in> set script"
    by (subst assms(2)) simp
  with script_no_exit have a: "a \<noteq> SyncPlaywrightExit"
    by blast
  from returned_position[OF assms] obtain post where
    "events (main w) =
       (Returned SyncPlaywrightEnter # map completion before) @ Returned a # post" ..
  with main_consistent[of w] have
    "consistent w blank
       ((Returned SyncPlaywrightEnter # map completion before) @ Returned a # post)"
    by simp
  from consistent_returned[OF this a] show ?thesis .
qed

lemma tip_check_passed:
  assumes "Returned (ToBeVisible tip_button) \<in> set (events (main w))"
  shows "satisfied (studio_page w) (ToBeVisible tip_button)"
proof -
  have "script = take 7 script @ Do (ToBeVisible tip_button) # drop 8 script"
    "Do (ToBeVisible tip_button) \<notin> set (take 7 script)"
    by (simp_all add: script_def locators_differ)
  from returned_satisfied[OF assms this] show ?thesis
    by (simp add: script_def)
qed

lemma key_check_passed:
  assumes "Returned (ToBeVisible c_key) \<in> set (events (main w))"
  shows "satisfied (theory_page w) (ToBeVisible c_key)"
proof -
  have "script = take 10 script @ Do (ToBeVisible c_key) # drop 11 script"
    "Do (ToBeVisible c_key) \<notin> set (take 10 script)"
    by (simp_all add: script_def locators_differ)
  from returned_satisfied[OF assms this] show ?thesis
    by (simp add: script_def)
qed

lemma key_attribute_check_passed:
  assumes "Returned (ToHaveAttribute c_key ''aria-pressed'' ''false'')
      \<in> set (events (main w))"
  shows "satisfied (theory_page w) (ToHaveAttribute c_key ''aria-pressed'' ''false'')"
proof -
  have "script = take 11 script @
      Do (ToHaveAttribute c_key ''aria-pressed'' ''false'') # drop 12 script"
    "Do (ToHaveAttribute c_key ''aria-pressed'' ''false'') \<notin> set (take 11 script)"
    by (simp_all add: script_def)
  from returned_satisfied[OF assms this] show ?thesis
    by (simp add: script_def)
qed

lemma enter_through_tip_check: "SyncPlaywrightEnter \<in> set calls_through_tip_check"
  by (simp add: calls_through_tip_check_def calls_before_screenshot_def)

lemma tip_check_through_key_checks:
  "set calls_through_tip_check \<subseteq> set calls_through_key_checks"
  by (auto simp: calls_through_key_checks_def)

lemma raised_through_tip_check:
  assumes "script = pre @ Do a # post"
  shows "(a \<in> set calls_through_tip_check \<and> printed (map completion pre) = []) \<or>
     Returned (ToBeVisible tip_button) \<in> set (map completion pre)"
  using script_split[OF assms]
  by (auto simp: script_def calls_through_tip_check_def calls_before_screenshot_def)

lemma raised_through_key_checks:
  assumes "script = pre @ Do a # post"
  shows "(a \<in> set calls_through_key_checks \<and>
          printed (map completion pre) \<in> set [[], [tip_line]]) \<or>
        (Returned (ToBeVisible c_key) \<in> set (map completion pre) \<and>
         Returned (ToHaveAttribute c_key ''aria-pressed'' ''false'')
           \<in> set (map completion pre))"
  using script_split[OF assms]
  by (auto simp: script_def calls_through_key_checks_def calls_through_tip_check_def
      calls_before_screenshot_def)

lemma raised_before_screenshot:
  assumes "script = pre @ Do a # post" and "a \<in> set calls_before_screenshot"
  shows "pre \<in> set [[], take 1 script, take 2 script, take 3 script, take 4 script,
      take 5 script]"
  using script_split[OF assms(1)] assms(2)
  by (auto simp: calls_before_screenshot_def)

section \<open>Claims\<close>

text \<open>
  C1. A run in which no call raises prints the two confirmation lines, in that order,
  then the success line, and nothing else; the process ends with status 0.
\<close>

theorem full_success_prints_and_exits_0:
  assumes "\<forall>a e. Raised a e \<notin> set (events (main w))"
  shows "stdout (main w) = [tip_line, piano_line, success_line] \<and> ending (main w) = Exited 0"
proof (cases w rule: main_shape)
  case (not_started e)
  with assms show ?thesis by auto
next
  case passed
  then show ?thesis by (simp add: stdout_def events_def script_def)
next
  case (failed pre a post e)
  with assms show ?thesis by auto
qed

text \<open>The working world is such a run.\<close>

theorem full_success_witness:
  "stdout (main working_world) = [tip_line, piano_line, success_line] \<and>
   ending (main working_world) = Exited 0"
proof -
  have "\<forall>a e. Raised a e \<notin> set (events (main working_world))"
    by (simp add: working_world_run script_def)
  then show ?thesis by (rule full_success_prints_and_exits_0)
qed

text \<open>
  C2, as stated, is about every exception raised during the steps. The handler is
  \<^verbatim>\<open>except Exception\<close>: Ctrl-C while the page is fetched raises
  \<^verbatim>\<open>KeyboardInterrupt\<close>, which is not caught; no failure line is printed and the
  script does not exit with status 1.
\<close>

theorem interrupt_is_not_caught:
  "Raised (Goto studio_url) (Exc KeyboardInterrupt []) \<in> set (events (main interrupted_world)) \<and>
   ending (main interrupted_world) \<noteq> Exited 1 \<and>
   filter is_failure_line (stdout (main interrupted_world)) = []"
  by (simp add: interrupted_world_run stdout_def events_def[symmetric] script_def
      is_failure_line_def tip_line_def piano_line_def)

text \<open>
  C2, amended. An exception derived from \<^verbatim>\<open>Exception\<close> that a call raises is caught
  once by the handler: the process ends with status 1; after the raise the script only
  leaves the \<^verbatim>\<open>with\<close> block (if it had entered it) and prints the failure line with the
  description of that exception; no call raised before it, none is made after it; the
  failure line is the only line of the output with the prefix.
\<close>

theorem exception_caught_once:
  assumes "Raised a e \<in> set (events (main w))" and "derives_from_Exception (cls e)"
  shows "ending (main w) = Exited 1 \<and>
    (\<exists>pre. events (main w) = pre @ Raised a e # leaving a @ [Printed (failure_line e)] \<and>
       (\<forall>b x. Raised b x \<notin> set pre)) \<and>
    filter is_failure_line (stdout (main w)) = [failure_line e]"
  using assms(1)
proof (cases rule: raised_cases)
  case not_started
  have "events (main w) = [] @ Raised a e # leaving a @ [Printed (failure_line e)] \<and>
      (\<forall>b x. Raised b x \<notin> set [])"
    using not_started assms(2) by (simp add: leaving_def caught_def)
  then have "\<exists>pre. events (main w) = pre @ Raised a e # leaving a @ [Printed (failure_line e)] \<and>
      (\<forall>b x. Raised b x \<notin> set pre)" by blast
  with not_started assms(2) show ?thesis
    by (simp add: verdict_def caught_def stdout_def events_def[symmetric]
        failure_line_is_failure_line)
next
  case (failed pre post)
  have "a \<noteq> SyncPlaywrightEnter"
    using script_split[OF failed(1)] by auto
  then have "events (main w) =
      (Returned SyncPlaywrightEnter # map completion pre) @
        Raised a e # leaving a @ [Printed (failure_line e)] \<and>
      (\<forall>b x. Raised b x \<notin> set (Returned SyncPlaywrightEnter # map completion pre))"
    using failed assms(2) by (simp add: leaving_def caught_def completion_not_Raised)
  then have "\<exists>pre. events (main w) = pre @ Raised a e # leaving a @ [Printed (failure_line e)] \<and>
      (\<forall>b x. Raised b x \<notin> set pre)" by blast
  with failed assms(2) show ?thesis
    by (simp add: verdict_def caught_def stdout_def events_def[symmetric] printed_append
        failure_line_is_failure_line prefix_lines_not_failure)
qed

text \<open>A navigation that times out.\<close>

theorem exception_caught_once_witness:
  "ending (main slow_world) = Exited 1 \<and>
   filter is_failure_line (stdout (main slow_world)) = [''FAILURE: Timeout 30000ms exceeded'']"
proof -
  have r: "Raised (Goto studio_url) (Exc TimeoutError ''Timeout 30000ms exceeded'')
      \<in> set (events (main slow_world))"
    by (simp add: slow_world_run)
  have d: "derives_from_Exception (cls (Exc TimeoutError ''Timeout 30000ms exceeded''))"
    by simp
  from exception_caught_once[OF r d] show ?thesis
    by (simp add: failure_line_def)
qed

text \<open>
  C3, as stated, has exactly one browser acquired in every invocation. When the launch
  itself raises, none is acquired, and there is none to close or to leave open.
\<close>

theorem launch_failure_acquires_nothing:
  "acquired (events (main no_browser_world)) = 0 \<and>
   closed_by_script 0 (events (main no_browser_world)) = 0 \<and>
   open_at_block_exit 0 (events (main no_browser_world)) = 0 \<and>
   ending (main no_browser_world) = Exited 1"
  by (simp add: no_browser_world_run)

text \<open>
  C3, amended. In every invocation at most one browser is acquired: exactly one when
  entering \<^verbatim>\<open>sync_playwright\<close> and the launch both return, none otherwise. The script
  closes it by \<^verbatim>\<open>browser.close()\<close> exactly in the runs in which no call raises. In every
  other run the browser acquired, if any, is still open when the block is left. So on
  every exit path each browser acquired is disposed of once, in one of the two ways, and
  none in neither.
\<close>

theorem browser_acquired_and_disposed:
  "acquired (events (main w)) =
     (if fault w SyncPlaywrightEnter = None \<and> fault w (ChromiumLaunch True) = None
      then 1 else 0) \<and>
   closed_by_script 0 (events (main w)) =
     (if \<forall>a e. Raised a e \<notin> set (events (main w)) then 1 else 0) \<and>
   open_at_block_exit 0 (events (main w)) =
     acquired (events (main w)) - closed_by_script 0 (events (main w)) \<and>
   closed_by_script 0 (events (main w)) + open_at_block_exit 0 (events (main w)) =
     acquired (events (main w))"
proof (cases w rule: main_shape)
  case (not_started e)
  with main_consistent[of w] show ?thesis
    by (auto simp: caught_def)
next
  case passed
  with main_consistent[of w] show ?thesis
    by (simp add: script_def completion_not_Raised)
next
  case (failed pre a post e)
  then have r: "\<not> (\<forall>a e. Raised a e \<notin> set (events (main w)))" by auto
  from script_split[OF failed(1)] failed(2) main_consistent[of w] show ?thesis
    unfolding if_not_P[OF r]
    by (auto simp: script_def caught_def)
qed

text \<open>
  The working world, where the script closes the browser, and the world without a tip
  button, where it is open when the block is left.
\<close>

theorem browser_acquired_and_disposed_witness:
  "acquired (events (main working_world)) = 1 \<and>
   closed_by_script 0 (events (main working_world)) = 1 \<and>
   open_at_block_exit 0 (events (main working_world)) = 0 \<and>
   acquired (events (main no_tip_world)) = 1 \<and>
   closed_by_script 0 (events (main no_tip_world)) = 0 \<and>
   open_at_block_exit 0 (events (main no_tip_world)) = 1"
proof -
  have launched:
    "fault working_world SyncPlaywrightEnter = None"
    "fault working_world (ChromiumLaunch True) = None"
    "fault no_tip_world SyncPlaywrightEnter = None"
    "fault no_tip_world (ChromiumLaunch True) = None"
    by (simp_all add: working_world_def no_tip_world_def)
  have passed: "\<forall>a e. Raised a e \<notin> set (events (main working_world))"
    by (simp add: working_world_run script_def)
  have "Raised (ToBeVisible tip_button) (Exc AssertionError ''Locator expected to be visible'')
      \<in> set (events (main no_tip_world))"
    by (simp add: no_tip_world_run)
  then have failed: "\<not> (\<forall>a e. Raised a e \<notin> set (events (main no_tip_world)))"
    by blast
  from browser_acquired_and_disposed[of working_world]
    browser_acquired_and_disposed[of no_tip_world]
  show ?thesis
    unfolding if_P[OF passed] if_not_P[OF failed] by (simp add: launched)
qed

text \<open>
  C4. When one of the three expectations raises, the screenshot call has returned
  earlier in the trace, and the file at the fixed path holds the full-page screenshot,
  whatever was there before. In every run no expectation is tried until the screenshot
  is taken.
\<close>

theorem screenshot_before_assertion_failure:
  assumes "Raised a e \<in> set (events (main w))" and "a \<in> set assertions"
  shows "(\<exists>pre post. events (main w) = pre @ Raised a e # post \<and>
            Returned (Screenshot screenshot_path True) \<in> set pre) \<and>
         files (final (main w)) screenshot_path = Some (pixels w True) \<and>
         awaits (Returned (Screenshot screenshot_path True)) (tries assertions) (events (main w))"
  using assms(1)
proof (cases rule: raised_cases)
  case not_started
  with assms(2) show ?thesis by (simp add: assertions_def)
next
  case (failed pre post)
  from script_split[OF failed(1)] assms(2)
  have pre: "pre = take 7 script \<or> pre = take 10 script \<or> pre = take 11 script"
    by (auto simp: assertions_def tip_button_def c_key_def)
  have "events (main w) =
      (Returned SyncPlaywrightEnter # map completion pre) @
        Raised a e # (Returned SyncPlaywrightExit # caught e) \<and>
      Returned (Screenshot screenshot_path True)
        \<in> set (Returned SyncPlaywrightEnter # map completion pre)"
    using failed(2) pre by (auto simp: script_def)
  then have ex: "\<exists>pre post. events (main w) = pre @ Raised a e # post \<and>
      Returned (Screenshot screenshot_path True) \<in> set pre" by blast
  have fs: "files (final (main w)) screenshot_path = Some (pixels w True)"
    unfolding main_files using failed(2) pre by (auto simp: script_def caught_def)
  have aw: "awaits (Returned (Screenshot screenshot_path True)) (tries assertions)
      (events (main w))"
    using failed(2) pre by (auto simp: script_def tries_def assertions_def)
  from ex fs aw show ?thesis by simp
qed

text \<open>The world without a tip button: the expectation of line 23 raises.\<close>

theorem screenshot_before_assertion_failure_witness:
  "files (final (main no_tip_world)) screenshot_path = Some ''full-page PNG'' \<and>
   awaits (Returned (Screenshot screenshot_path True)) (tries assertions)
     (events (main no_tip_world))"
proof -
  have r: "Raised (ToBeVisible tip_button) (Exc AssertionError ''Locator expected to be visible'')
      \<in> set (events (main no_tip_world))"
    by (simp add: no_tip_world_run)
  have a: "ToBeVisible tip_button \<in> set assertions"
    by (simp add: assertions_def)
  from screenshot_before_assertion_failure[OF r a] show ?thesis
    by (simp add: no_tip_world_def working_world_def)
qed

text \<open>
  C5, as stated, has every invocation write exactly one image file. When nothing listens
  on the port, the navigation raises and no file is written.
\<close>

theorem unreachable_page_leaves_no_file:
  "written (events (main offline_world)) = [] \<and>
   files (final (main offline_world)) screenshot_path = None \<and>
   ending (main offline_world) = Exited 1"
  by (simp add: offline_world_run script_def)

text \<open>
  C5, amended. An invocation writes one file, the full-page screenshot at the fixed path,
  if every call up to and including the screenshot returns, and no file otherwise. The
  disk at the end is the disk at the start with at most that one path overwritten. Every
  line of the output is one of the two confirmation lines, the success line, or a
  failure line.
\<close>

theorem at_most_one_file_written:
  "written (events (main w)) =
     (if \<forall>a \<in> set (calls_before_screenshot @ [Screenshot screenshot_path True]).
           fault w a = None
      then [(screenshot_path, True)] else []) \<and>
   files (final (main w)) =
     (if written (events (main w)) = [] then disk w
      else (disk w)(screenshot_path \<mapsto> pixels w True)) \<and>
   (\<forall>l \<in> set (stdout (main w)).
      l \<in> {tip_line, piano_line, success_line} \<or> is_failure_line l)"
proof (cases w rule: main_shape)
  case (not_started e)
  with main_consistent[of w] show ?thesis
    unfolding main_files stdout_def events_def[symmetric]
    by (auto simp: caught_def calls_before_screenshot_def failure_line_is_failure_line)
next
  case passed
  with main_consistent[of w] show ?thesis
    unfolding main_files stdout_def events_def[symmetric]
    by (simp add: script_def calls_before_screenshot_def)
next
  case (failed pre a post e)
  from script_split[OF failed(1)] failed(2) main_consistent[of w] show ?thesis
    unfolding main_files stdout_def events_def[symmetric]
    by (auto simp: script_def caught_def calls_before_screenshot_def
        failure_line_is_failure_line)
qed

text \<open>In the working world the file is written.\<close>

theorem at_most_one_file_written_witness:
  "written (events (main working_world)) = [(screenshot_path, True)] \<and>
   files (final (main working_world)) = [screenshot_path \<mapsto> ''full-page PNG'']"
  using at_most_one_file_written[of working_world]
  by (simp add: working_world_def)

text \<open>
  C6, as stated, has no condition but the missing element. With the tip button absent
  and Ctrl-C during the check of line 23 itself, the exception is not caught: the script
  does not exit with status 1 and prints no failure line.
\<close>

theorem interrupted_tip_check:
  "\<not> satisfied (studio_page interrupted_tip_world) (ToBeVisible tip_button) \<and>
   ending (main interrupted_tip_world) \<noteq> Exited 1 \<and>
   filter is_failure_line (stdout (main interrupted_tip_world)) = []"
  by (simp add: interrupted_worlds_pages interrupted_tip_world_run stdout_def
      events_def[symmetric] script_def)

text \<open>
  C6, amended. If the Studio page does not show exactly one visible element for the label
  "Get new production tip" (the element is absent or not visible), then, unless a call up
  to that check raises an exception outside \<^verbatim>\<open>Exception\<close>, the process ends with
  status 1 and its whole output is one failure line: the confirmation line of the piano
  key is not printed.
\<close>

theorem missing_tip_button_fails:
  assumes "\<not> satisfied (studio_page w) (ToBeVisible tip_button)"
    and "\<forall>a \<in> set calls_through_tip_check. \<forall>e. fault w a = Some e \<longrightarrow>
           derives_from_Exception (cls e)"
  shows "ending (main w) = Exited 1 \<and>
         (\<exists>e. stdout (main w) = [failure_line e]) \<and>
         piano_line \<notin> set (stdout (main w))"
proof -
  have "ending (main w) = Exited 1 \<and> (\<exists>e. stdout (main w) = [failure_line e])"
  proof (cases w rule: main_shape)
    case (not_started e)
    then have "Raised SyncPlaywrightEnter e \<in> set (events (main w))" by simp
    from raised_origin[OF this] assms(2) enter_through_tip_check
    have "derives_from_Exception (cls e)" by blast
    with not_started show ?thesis
      unfolding stdout_def events_def[symmetric] by (auto simp: caught_def verdict_def)
  next
    case passed
    then have "Returned (ToBeVisible tip_button) \<in> set (events (main w))"
      by (simp add: script_def)
    from tip_check_passed[OF this] assms(1) show ?thesis by simp
  next
    case (failed pre a post e)
    from raised_through_tip_check[OF failed(1)] show ?thesis
    proof
      assume early: "a \<in> set calls_through_tip_check \<and> printed (map completion pre) = []"
      from failed(2) have "Raised a e \<in> set (events (main w))" by simp
      from raised_origin[OF this] assms(2) early
      have "derives_from_Exception (cls e)" by blast
      with failed early show ?thesis
        unfolding stdout_def events_def[symmetric]
        by (auto simp: caught_def verdict_def printed_append)
    next
      assume "Returned (ToBeVisible tip_button) \<in> set (map completion pre)"
      with failed(2) have "Returned (ToBeVisible tip_button) \<in> set (events (main w))"
        by simp
      from tip_check_passed[OF this] assms(1) show ?thesis by simp
    qed
  qed
  then show ?thesis by (auto simp: piano_line_not_failure_line)
qed

text \<open>The world without a tip button.\<close>

theorem missing_tip_button_fails_witness:
  "ending (main no_tip_world) = Exited 1 \<and>
   (\<exists>e. stdout (main no_tip_world) = [failure_line e]) \<and>
   piano_line \<notin> set (stdout (main no_tip_world))"
proof -
  have a: "\<not> satisfied (studio_page no_tip_world) (ToBeVisible tip_button)"
    by (simp add: satisfied_def no_tip_world_def working_world_def tip_button_def)
  have b: "\<forall>a \<in> set calls_through_tip_check. \<forall>e. fault no_tip_world a = Some e \<longrightarrow>
      derives_from_Exception (cls e)"
    by (simp add: no_tip_world_def working_world_def)
  from missing_tip_button_fails[OF a b] show ?thesis .
qed

text \<open>
  C7, as stated, has no condition but the state of the key. With the key shown pressed,
  the Theory tab clicked, and Ctrl-C during the check of line 31 itself, the exception is
  not caught and the script does not exit with status 1.
\<close>

theorem interrupted_key_check:
  "\<not> satisfied (theory_page interrupted_key_world)
       (ToHaveAttribute c_key ''aria-pressed'' ''false'') \<and>
   Returned (Click (GetByText ''Theory'')) \<in> set (events (main interrupted_key_world)) \<and>
   ending (main interrupted_key_world) \<noteq> Exited 1"
  by (simp add: interrupted_worlds_pages interrupted_key_world_run script_def)

text \<open>
  C7, amended. If, on the document shown after the click on the Theory tab, the key of the note C
  is not visible, or its \<^verbatim>\<open>aria-pressed\<close> attribute is not \<^verbatim>\<open>false\<close>, then, unless a call
  up to those checks raises an exception outside \<^verbatim>\<open>Exception\<close>, the process ends with
  status 1; the last line printed is a failure line and the confirmation line of the
  piano key is not printed.
\<close>

theorem bad_piano_key_fails:
  assumes "\<not> satisfied (theory_page w) (ToBeVisible c_key) \<or>
           \<not> satisfied (theory_page w) (ToHaveAttribute c_key ''aria-pressed'' ''false'')"
    and "\<forall>a \<in> set calls_through_key_checks. \<forall>e. fault w a = Some e \<longrightarrow>
           derives_from_Exception (cls e)"
  shows "ending (main w) = Exited 1 \<and> piano_line \<notin> set (stdout (main w)) \<and>
         (\<exists>e. last (stdout (main w)) = failure_line e)"
proof (cases w rule: main_shape)
  case (not_started e)
  then have "Raised SyncPlaywrightEnter e \<in> set (events (main w))" by simp
  from raised_origin[OF this] assms(2) enter_through_tip_check tip_check_through_key_checks
  have "derives_from_Exception (cls e)" by blast
  with not_started show ?thesis
    unfolding stdout_def events_def[symmetric]
    by (auto simp: caught_def verdict_def piano_line_not_failure_line)
next
  case passed
  then have "Returned (ToBeVisible c_key) \<in> set (events (main w))"
    "Returned (ToHaveAttribute c_key ''aria-pressed'' ''false'') \<in> set (events (main w))"
    by (simp_all add: script_def)
  from key_check_passed[OF this(1)] key_attribute_check_passed[OF this(2)] assms(1)
  show ?thesis by simp
next
  case (failed pre a post e)
  from raised_through_key_checks[OF failed(1)] show ?thesis
  proof
    assume early: "a \<in> set calls_through_key_checks \<and>
        printed (map completion pre) \<in> set [[], [tip_line]]"
    have neq: "piano_line \<noteq> tip_line"
      by (simp add: piano_line_def tip_line_def)
    from failed(2) have "Raised a e \<in> set (events (main w))" by simp
    from raised_origin[OF this] assms(2) early
    have "derives_from_Exception (cls e)" by blast
    with failed early neq show ?thesis
      unfolding stdout_def events_def[symmetric]
      by (auto simp: caught_def verdict_def printed_append piano_line_not_failure_line)
  next
    assume "Returned (ToBeVisible c_key) \<in> set (map completion pre) \<and>
        Returned (ToHaveAttribute c_key ''aria-pressed'' ''false'')
          \<in> set (map completion pre)"
    with failed(2) have "Returned (ToBeVisible c_key) \<in> set (events (main w))"
      "Returned (ToHaveAttribute c_key ''aria-pressed'' ''false'') \<in> set (events (main w))"
      by simp_all
    from key_check_passed[OF this(1)] key_attribute_check_passed[OF this(2)] assms(1)
    show ?thesis by simp
  qed
qed

text \<open>The world in which the key is shown pressed.\<close>

theorem bad_piano_key_fails_witness:
  "ending (main pressed_key_world) = Exited 1 \<and>
   piano_line \<notin> set (stdout (main pressed_key_world)) \<and>
   (\<exists>e. last (stdout (main pressed_key_world)) = failure_line e)"
proof -
  have a: "\<not> satisfied (theory_page pressed_key_world) (ToBeVisible c_key) \<or>
      \<not> satisfied (theory_page pressed_key_world)
          (ToHaveAttribute c_key ''aria-pressed'' ''false'')"
    by (simp add: satisfied_def pressed_key_world_def working_world_def key_element_def)
  have b: "\<forall>a \<in> set calls_through_key_checks. \<forall>e. fault pressed_key_world a = Some e \<longrightarrow>
      derives_from_Exception (cls e)"
    by (simp add: pressed_key_world_def working_world_def)
  from bad_piano_key_fails[OF a b] show ?thesis .
qed

text \<open>
  C8. In every run: the page does not navigate until the init script is registered, the
  network-idle wait does not start until the navigation has returned, and neither the
  screenshot nor any of the three expectations is tried until the wait has returned.
\<close>

theorem steps_in_order:
  "awaits (Returned (AddInitScript init_script)) (tries [Goto studio_url]) (events (main w)) \<and>
   awaits (Returned (Goto studio_url)) (tries [WaitForLoadState ''networkidle''])
     (events (main w)) \<and>
   awaits (Returned (WaitForLoadState ''networkidle''))
     (tries (Screenshot screenshot_path True # assertions)) (events (main w))"
proof (cases w rule: main_shape)
  case (not_started e)
  then show ?thesis by (simp add: caught_def tries_def assertions_def)
next
  case passed
  then show ?thesis by (simp add: script_def tries_def assertions_def)
next
  case (failed pre a post e)
  from script_split[OF failed(1)] failed(2) show ?thesis 
    by (auto simp: script_def tries_def assertions_def caught_def)
qed

text \<open>In the working world the three calls happen, in that order.\<close>

theorem steps_in_order_witness:
  "awaits (Returned (AddInitScript init_script)) (tries [Goto studio_url])
     (events (main working_world)) \<and>
   awaits (Returned (Goto studio_url)) (tries [WaitForLoadState ''networkidle''])
     (events (main working_world)) \<and>
   awaits (Returned (WaitForLoadState ''networkidle''))
     (tries (Screenshot screenshot_path True # assertions)) (events (main working_world)) \<and>
   take 8 (events (main working_world)) =
     [Returned SyncPlaywrightEnter, Returned (ChromiumLaunch True), Returned NewContext,
      Returned NewPage, Returned (AddInitScript init_script), Returned (Goto studio_url),
      Returned (WaitForLoadState ''networkidle''), Returned (Screenshot screenshot_path True)]"
  using steps_in_order[of working_world]
  by (simp add: working_world_run script_def)

text \<open>
  C9, as stated, has every exception raised before the screenshot end the run with
  status 1. Ctrl-C during the wait for the network to go idle is such an exception, and
  it is not caught.
\<close>

theorem interrupt_before_screenshot:
  "Raised (WaitForLoadState ''networkidle'') (Exc KeyboardInterrupt [])
     \<in> set (events (main stalled_world)) \<and>
   WaitForLoadState ''networkidle'' \<in> set calls_before_screenshot \<and>
   ending (main stalled_world) \<noteq> Exited 1"
  by (simp add: stalled_world_run calls_before_screenshot_def)

text \<open>
  C9, amended. If a call before the screenshot raises, no file is written and the disk
  is left as it was; the process ends with status 1 if the exception derives from
  \<^verbatim>\<open>Exception\<close>, and with the exception uncaught otherwise.
\<close>

theorem early_failure_writes_no_file:
  assumes "Raised a e \<in> set (events (main w))" and "a \<in> set calls_before_screenshot"
  shows "written (events (main w)) = [] \<and> files (final (main w)) = disk w \<and>
         ending (main w) =
           (if derives_from_Exception (cls e) then Exited 1 else Propagated e)"
  using assms(1)
proof (cases rule: raised_cases)
  case not_started
  then show ?thesis
    unfolding main_files by (simp add: caught_def verdict_def)
next
  case (failed pre post)
  from raised_before_screenshot[OF failed(1) assms(2)] failed(2,3) show ?thesis
    unfolding main_files by (auto simp: script_def caught_def verdict_def)
qed

text \<open>The world in which nothing listens on the port.\<close>

theorem early_failure_writes_no_file_witness:
  "written (events (main offline_world)) = [] \<and>
   files (final (main offline_world)) = disk offline_world \<and>
   ending (main offline_world) = Exited 1"
proof -
  have r: "Raised (Goto studio_url) (Exc PlaywrightError ''net::ERR_CONNECTION_REFUSED'')
      \<in> set (events (main offline_world))"
    by (simp add: offline_world_run)
  have a: "Goto studio_url \<in> set calls_before_screenshot"
    by (simp add: calls_before_screenshot_def)
  from early_failure_writes_no_file[OF r a] show ?thesis by simp
qed

text \<open>
  C10. An exception that a call raises and that does not derive from \<^verbatim>\<open>Exception\<close>
  leaves the script uncaught: the process does not end by the handler's \<^verbatim>\<open>exit(1)\<close>, and
  no line of the output is a failure line.
\<close>

theorem non_Exception_propagates:
  assumes "Raised a e \<in> set (events (main w))" and "\<not> derives_from_Exception (cls e)"
  shows "ending (main w) = Propagated e \<and> ending (main w) \<noteq> Exited 1 \<and>
    (\<forall>l \<in> set (stdout (main w)). \<not> is_failure_line l)"
  using assms(1)
proof (cases rule: raised_cases)
  case not_started
  with assms(2) show ?thesis
    by (simp add: stdout_def events_def[symmetric] verdict_def caught_def)
next
  case (failed pre post)
  have "\<forall>l \<in> set (printed (map completion pre)). \<not> is_failure_line l"
    using printed_prefix[OF failed(1)] by (auto simp: confirmations_not_failure_lines)
  with failed assms(2) show ?thesis
    by (simp add: stdout_def events_def[symmetric] verdict_def caught_def printed_append)
qed

text \<open>Ctrl-C during the wait for the network to go idle.\<close>

theorem non_Exception_propagates_witness:
  "ending (main stalled_world) = Propagated (Exc KeyboardInterrupt []) \<and>
   ending (main stalled_world) \<noteq> Exited 1 \<and>
   filter is_failure_line (stdout (main stalled_world)) = []"
proof -
  have r: "Raised (WaitForLoadState ''networkidle'') (Exc KeyboardInterrupt [])
      \<in> set (events (main stalled_world))"
    by (simp add: stalled_world_run)
  have d: "\<not> derives_from_Exception (cls (Exc KeyboardInterrupt []))"
    by simp
  from non_Exception_propagates[OF r d] show ?thesis
    by (simp add: filter_empty_conv)
qed

end
